theory Spec2Isabelle
  imports Complex_Main
begin

section \<open>Data model\<close>

text \<open>
  Provider names are the string keys of the router's tables. A search result is kept
  opaque: the router never inspects one.
\<close>

type_synonym ProviderName = string
type_synonym SearchResult = string

subsection \<open>Circuit breaker\<close>

text \<open>
  \<^verbatim>\<open>interface CircuitState { failures; lastFailure; cooldownUntil }\<close>
  and the constant \<^verbatim>\<open>CIRCUIT_BREAKER = { maxFailures: 3, cooldownMs: 5 * 60 * 1000 }\<close>.
  Times are milliseconds since the epoch, as \<^verbatim>\<open>Date.now()\<close> returns them. The failure
  count starts at 0 and only ever grows by one, so it is a natural number.
\<close>

record CircuitState =
  failures :: nat
  lastFailure :: int
  cooldownUntil :: int

definition maxFailures :: nat where
  "maxFailures = 3"

definition cooldownMs :: int where
  "cooldownMs = 5 * 60 * 1000"

type_synonym circuit = "ProviderName \<rightharpoonup> CircuitState"

text \<open>
  \<^verbatim>\<open>isCircuitOpen(provider)\<close>: returns the answer and the state map, which the call may
  have purged of a stale record. \<open>now\<close> is the value of \<^verbatim>\<open>Date.now()\<close>.
\<close>

definition isCircuitOpen :: "circuit \<Rightarrow> ProviderName \<Rightarrow> int \<Rightarrow> bool \<times> circuit" where
  "isCircuitOpen cs provider now =
     (case cs provider of
        None \<Rightarrow> (False, cs)
      | Some state \<Rightarrow>
          if cooldownUntil state > now then (True, cs)
          else (False, if failures state \<ge> maxFailures then cs(provider := None) else cs))"

text \<open>
  \<^verbatim>\<open>recordFailure(provider)\<close>. The source reads \<^verbatim>\<open>Date.now()\<close> twice in straight-line
  code (for \<^verbatim>\<open>lastFailure\<close> and for the cooldown); both reads are the one instant \<open>now\<close>.
\<close>

definition recordFailure :: "circuit \<Rightarrow> ProviderName \<Rightarrow> int \<Rightarrow> circuit" where
  "recordFailure cs provider now =
     (let state = (case cs provider of
                     Some s \<Rightarrow> s
                   | None \<Rightarrow> \<lparr>failures = 0, lastFailure = 0, cooldownUntil = 0\<rparr>);
          state1 = state\<lparr>failures := failures state + 1, lastFailure := now\<rparr>;
          state2 = (if failures state1 \<ge> maxFailures
                    then state1\<lparr>cooldownUntil := now + cooldownMs\<rparr>
                    else state1)
      in cs(provider \<mapsto> state2))"

definition recordSuccess :: "circuit \<Rightarrow> ProviderName \<Rightarrow> circuit" where
  "recordSuccess cs provider = cs(provider := None)"

datatype HealthStatus = healthy | degraded | down

text \<open>
  \<^verbatim>\<open>getHealthStatus(provider)\<close>. The optional \<^verbatim>\<open>cooldownUntil\<close> of the answer is an ISO
  string of the stored instant in the source; the model keeps the instant itself.
\<close>

record Health =
  status :: HealthStatus
  health_failures :: nat
  health_cooldownUntil :: "int option"

definition getHealthStatus :: "circuit \<Rightarrow> ProviderName \<Rightarrow> int \<Rightarrow> Health" where
  "getHealthStatus cs provider now =
     (case cs provider of
        None \<Rightarrow> \<lparr>status = healthy, health_failures = 0, health_cooldownUntil = None\<rparr>
      | Some state \<Rightarrow>
          if cooldownUntil state > now
          then \<lparr>status = down, health_failures = failures state,
                health_cooldownUntil = Some (cooldownUntil state)\<rparr>
          else if failures state > 0
          then \<lparr>status = degraded, health_failures = failures state,
                health_cooldownUntil = None\<rparr>
          else \<lparr>status = healthy, health_failures = 0, health_cooldownUntil = None\<rparr>)"

subsection \<open>Clock\<close>

text \<open>
  The router reads the clock in two ways: \<^verbatim>\<open>Date.now()\<close>, the milliseconds since the
  epoch, and \<^verbatim>\<open>new Date().toISOString().slice(0, 7)\<close>, the first seven characters of
  the ISO rendering of the current UTC date. An instant carries what the two need: the
  milliseconds, and the UTC year and month (1 to 12) of the same moment; the calendar
  arithmetic between them is the JavaScript runtime's.
\<close>

record instant =
  epoch_ms :: int
  utc_year :: int
  utc_month :: nat

definition digit :: "nat \<Rightarrow> char" where
  "digit n = ''0123456789'' ! (n mod 10)"

fun pad :: "nat \<Rightarrow> nat \<Rightarrow> string" where
  "pad 0 n = []"
| "pad (Suc k) n = pad k (n div 10) @ [digit n]"

text \<open>
  \<^verbatim>\<open>toISOString()\<close> writes a year from 0 to 9999 with four digits and any other year
  with a sign and six digits; the month follows a dash with two digits. \<open>slice(0, 7)\<close>
  keeps \<open>YYYY-MM\<close> in the first case and the sign and the six digits of the year in the
  second.
\<close>

definition toISOString_slice_0_7 :: "instant \<Rightarrow> string" where
  "toISOString_slice_0_7 t =
     (if 0 \<le> utc_year t \<and> utc_year t \<le> 9999
      then pad 4 (nat (utc_year t)) @ ''-'' @ pad 2 (utc_month t)
      else (if utc_year t < 0 then ''-'' else ''+'') @ pad 6 (nat \<bar>utc_year t\<bar>))"

text \<open>Reading a decimal numeral back, used to state what the key determines.\<close>

definition digit_value :: "char \<Rightarrow> nat" where
  "digit_value c = of_char c - 48"

definition decimal :: "string \<Rightarrow> nat" where
  "decimal s = foldl (\<lambda>a c. 10 * a + digit_value c) 0 s"

subsection \<open>Quota policy\<close>

text \<open>
  \<^verbatim>\<open>PROVIDER_LIMITS\<close> is declared in \<^verbatim>\<open>src/config/env.ts\<close>, which is not among the
  sources; the router's functions take it as a parameter. Each entry has a \<^verbatim>\<open>limit\<close>, a
  \<^verbatim>\<open>type\<close> among \<^verbatim>\<open>'monthly'\<close>, \<^verbatim>\<open>'lifetime'\<close> and \<^verbatim>\<open>'paid'\<close>, and for the paid ones
  a \<^verbatim>\<open>cost_per_query\<close> (absent reads as 0; a rational here). The table is given by its keys
  in declaration order (\<^verbatim>\<open>Object.entries\<close>) and its lookup. \<^verbatim>\<open>ProviderName\<close> is
  \<^verbatim>\<open>keyof typeof PROVIDER_LIMITS\<close>, so every lookup the router makes at a
  \<^verbatim>\<open>ProviderName\<close> is at a key.
\<close>

datatype ResetType = Monthly | Lifetime | Paid

record LimitConfig =
  limit :: int
  reset_type :: ResetType
  cost_per_query :: rat

record limits_table =
  limit_keys :: "ProviderName list"
  PROVIDER_LIMITS :: "ProviderName \<Rightarrow> LimitConfig"

text \<open>\<^verbatim>\<open>getStorageKey(provider)\<close>, with the instant that \<^verbatim>\<open>new Date()\<close> returns.\<close>

definition getStorageKey :: "limits_table \<Rightarrow> ProviderName \<Rightarrow> instant \<Rightarrow> string" where
  "getStorageKey tbl provider t =
     (let limitConfig = PROVIDER_LIMITS tbl provider in
      if reset_type limitConfig = Monthly then provider @ '':'' @ toISOString_slice_0_7 t
      else if reset_type limitConfig = Paid then provider @ '':paid''
      else provider @ '':lifetime'')"

subsection \<open>Usage storage: the local-file backend\<close>

text \<open>
  \<^verbatim>\<open>FileStorage\<close> keeps one JSON document, \<^verbatim>\<open>~/.mcp-omnisearch/usage.json\<close>. What
  \<^verbatim>\<open>load\<close> can meet there: no file (\<^verbatim>\<open>readFile\<close> throws), a file that
  \<^verbatim>\<open>JSON.parse\<close> rejects, or a document, which by the declared type
  \<^verbatim>\<open>Record<string, number>\<close> maps keys to counters.
\<close>

datatype usage_file = Missing | Unparseable | Document "string \<rightharpoonup> int"

text \<open>\<^verbatim>\<open>load()\<close>: the \<^verbatim>\<open>catch\<close> turns both failures into the empty object.\<close>

definition load :: "usage_file \<Rightarrow> (string \<rightharpoonup> int)" where
  "load f = (case f of Document data \<Rightarrow> data | Missing \<Rightarrow> Map.empty | Unparseable \<Rightarrow> Map.empty)"

text \<open>\<^verbatim>\<open>save(data)\<close> rewrites the whole document.\<close>

definition save :: "(string \<rightharpoonup> int) \<Rightarrow> usage_file" where
  "save data = Document data"

text \<open>\<^verbatim>\<open>data[key] ?? 0\<close>\<close>

definition or_zero :: "int option \<Rightarrow> int" where
  "or_zero v = (case v of None \<Rightarrow> 0 | Some n \<Rightarrow> n)"

definition get :: "usage_file \<Rightarrow> string \<Rightarrow> int" where
  "get f key = or_zero (load f key)"

text \<open>\<^verbatim>\<open>increment(key)\<close> returns the new value and the rewritten file.\<close>

definition increment :: "usage_file \<Rightarrow> string \<Rightarrow> int \<times> usage_file" where
  "increment f key =
     (let data = load f;
          data' = data(key \<mapsto> or_zero (data key) + 1)
      in (or_zero (data' key), save data'))"

definition getAll :: "usage_file \<Rightarrow> (string \<rightharpoonup> int)" where
  "getAll f = load f"

text \<open>\<^verbatim>\<open>hasQuota(provider)\<close>\<close>

definition hasQuota :: "limits_table \<Rightarrow> usage_file \<Rightarrow> ProviderName \<Rightarrow> instant \<Rightarrow> bool" where
  "hasQuota tbl f provider t =
     (let key = getStorageKey tbl provider t;
          used = get f key
      in used < limit (PROVIDER_LIMITS tbl provider))"

text \<open>\<^verbatim>\<open>recordUsage(provider, paid)\<close>\<close>

definition recordUsage :: "limits_table \<Rightarrow> usage_file \<Rightarrow> ProviderName \<Rightarrow> bool \<Rightarrow> instant \<Rightarrow> usage_file" where
  "recordUsage tbl f provider is_paid t =
     (let key = getStorageKey tbl provider t;
          f1 = snd (increment f key)
      in if is_paid then snd (increment f1 (provider @ '':paid'')) else f1)"


subsection \<open>Stats aggregator\<close>

text \<open>
  \<^verbatim>\<open>BudgetStats\<close>: five objects keyed by provider name. The entries of \<^verbatim>\<open>monthly\<close> and
  \<^verbatim>\<open>lifetime\<close> are \<^verbatim>\<open>{ used, limit, remaining }\<close>, those of \<^verbatim>\<open>paidApis\<close> are
  \<^verbatim>\<open>{ used, costPerQuery, estimatedCost }\<close>.
\<close>

record QuotaUsage =
  quota_used :: int
  quota_limit :: int
  quota_remaining :: int

record PaidApiUsage =
  paid_used :: int
  costPerQuery :: rat
  estimatedCost :: rat

record BudgetStats =
  monthly :: "string \<rightharpoonup> QuotaUsage"
  lifetime :: "string \<rightharpoonup> QuotaUsage"
  paidApis :: "string \<rightharpoonup> PaidApiUsage"
  paid :: "string \<rightharpoonup> int"
  health :: "string \<rightharpoonup> Health"

text \<open>The body of the loop of \<^verbatim>\<open>getUsageStats\<close> for one entry of \<^verbatim>\<open>PROVIDER_LIMITS\<close>.\<close>

definition stats_entry ::
  "limits_table \<Rightarrow> (string \<rightharpoonup> int) \<Rightarrow> string \<Rightarrow> circuit \<Rightarrow> instant \<Rightarrow>
   BudgetStats \<Rightarrow> ProviderName \<Rightarrow> BudgetStats" where
  "stats_entry tbl allUsage currentMonth cs t stats provider =
     (let limitConfig = PROVIDER_LIMITS tbl provider;
          stats1 =
            (if reset_type limitConfig = Monthly then
               (let key = provider @ '':'' @ currentMonth;
                    used = or_zero (allUsage key)
                in stats\<lparr>monthly := (monthly stats)(provider \<mapsto>
                     \<lparr>quota_used = used, quota_limit = limit limitConfig,
                      quota_remaining = max 0 (limit limitConfig - used)\<rparr>)\<rparr>)
             else if reset_type limitConfig = Lifetime then
               (let key = provider @ '':lifetime'';
                    used = or_zero (allUsage key)
                in stats\<lparr>lifetime := (lifetime stats)(provider \<mapsto>
                     \<lparr>quota_used = used, quota_limit = limit limitConfig,
                      quota_remaining = max 0 (limit limitConfig - used)\<rparr>)\<rparr>)
             else if reset_type limitConfig = Paid then
               (let key = provider @ '':paid'';
                    used = or_zero (allUsage key);
                    cost = cost_per_query limitConfig
                in stats\<lparr>paidApis := (paidApis stats)(provider \<mapsto>
                     \<lparr>paid_used = used, costPerQuery = cost,
                      estimatedCost = of_int used * cost\<rparr>)\<rparr>)
             else stats);
          stats2 =
            (if reset_type limitConfig \<noteq> Paid
             then stats1\<lparr>paid := (paid stats1)(provider \<mapsto>
                    or_zero (allUsage (provider @ '':paid'')))\<rparr>
             else stats1);
          stats3 =
            (if reset_type limitConfig \<noteq> Paid
             then stats2\<lparr>health := (health stats2)(provider \<mapsto>
                    getHealthStatus cs provider (epoch_ms t))\<rparr>
             else stats2)
      in stats3)"

text \<open>
  \<^verbatim>\<open>getUsageStats()\<close>, over the usage file and the circuit state, at the instant \<open>t\<close>
  of the call.
\<close>

definition getUsageStats :: "limits_table \<Rightarrow> usage_file \<Rightarrow> circuit \<Rightarrow> instant \<Rightarrow> BudgetStats" where
  "getUsageStats tbl f cs t =
     (let allUsage = getAll f;
          currentMonth = toISOString_slice_0_7 t
      in foldl (stats_entry tbl allUsage currentMonth cs t)
           \<lparr>monthly = Map.empty, lifetime = Map.empty, paidApis = Map.empty,
            paid = Map.empty, health = Map.empty\<rparr>
           (limit_keys tbl))"

subsection \<open>Routing engine\<close>

text \<open>
  What a rejected promise carries: \<^verbatim>\<open>new Error(message)\<close> thrown by the router, the
  \<^verbatim>\<open>ProviderError\<close> of type \<^verbatim>\<open>INVALID_INPUT\<close> thrown by the unified provider, or
  whatever a provider's \<^verbatim>\<open>search\<close> rejected with, tagged here by a free-form detail.
\<close>

datatype thrown = Error string | InvalidInput string | ProviderFailure string

text \<open>
  The places of the source that call a provider's \<^verbatim>\<open>search\<close>: the
  \<^verbatim>\<open>include_content\<close> short-circuit, the stack loop and the paid fallback of
  \<^verbatim>\<open>route\<close>, and the explicit-provider branch of the unified provider. Each call is
  recorded with the usage file and the circuit state at the moment it is made.
\<close>

datatype call_site = ContentSite | StackSite | PaidSite | ExplicitSite

record invocation =
  inv_provider :: ProviderName
  inv_site :: call_site
  inv_storage :: usage_file
  inv_circuit :: circuit

text \<open>
  The router's mutable state: the usage storage (here the local-file backend), the
  circuit-breaker map, and the searches made so far.
\<close>

record world =
  storage :: usage_file
  circuitState :: circuit
  calls :: "invocation list"

text \<open>
  What is fixed at construction and what the outside decides. \<open>providers\<close> are the keys
  of \<^verbatim>\<open>this.providers\<close>: the providers whose API key was valid. \<open>respond n p\<close> is what
  provider \<open>p\<close> answers when its search is the call number \<open>n\<close> (counting from 0):
  results, or a rejection. \<open>clock n\<close> is the instant that a clock read returns once
  \<open>n\<close> searches have been made: time may pass during a search, and stands still
  between two.
\<close>

record env =
  providers :: "ProviderName list"
  limits :: limits_table
  respond :: "nat \<Rightarrow> ProviderName \<Rightarrow> thrown + SearchResult list"
  clock :: "nat \<Rightarrow> instant"

definition read_clock :: "env \<Rightarrow> world \<Rightarrow> instant" where
  "read_clock e w = clock e (length (calls w))"

text \<open>\<^verbatim>\<open>await provider.search(...)\<close> at a call site.\<close>

definition search :: "env \<Rightarrow> ProviderName \<Rightarrow> call_site \<Rightarrow> world \<Rightarrow> (thrown + SearchResult list) \<times> world" where
  "search e providerName site w =
     (respond e (length (calls w)) providerName,
      w\<lparr>calls := calls w @ [\<lparr>inv_provider = providerName, inv_site = site,
                              inv_storage = storage w, inv_circuit = circuitState w\<rparr>]\<rparr>)"

definition defaultStack :: "ProviderName list" where
  "defaultStack = [''brave'', ''tavily'', ''exa'', ''jina_search'', ''serper'', ''youcom'']"

definition googleStack :: "ProviderName list" where
  "googleStack = [''serper'', ''brave'', ''tavily'', ''exa'', ''jina_search'', ''youcom'']"

record RouteOptions =
  query :: string
  opt_limit :: "nat option"
  preferGoogle :: bool
  includeContent :: bool

record RouteResult =
  results :: "SearchResult list"
  provider :: string
  usedPaidTier :: bool

text \<open>
  The \<^verbatim>\<open>for (const providerName of stack)\<close> loop of \<^verbatim>\<open>route\<close>. \<open>Some\<close> is the
  \<^verbatim>\<open>return\<close> from inside the loop, \<open>None\<close> is falling out of it. The \<^verbatim>\<open>catch\<close>
  swallows every rejection of the search. (It also encloses \<^verbatim>\<open>recordUsage\<close>, which
  does not fail on the storage modelled here.)
\<close>

fun route_stack :: "env \<Rightarrow> ProviderName list \<Rightarrow> world \<Rightarrow> RouteResult option \<times> world" where
  "route_stack e [] w = (None, w)"
| "route_stack e (providerName # rest) w =
     (if providerName \<notin> set (providers e) then route_stack e rest w
      else
        (case isCircuitOpen (circuitState w) providerName (epoch_ms (read_clock e w)) of
           (True, cs) \<Rightarrow> route_stack e rest (w\<lparr>circuitState := cs\<rparr>)
         | (False, cs) \<Rightarrow>
             (let w1 = w\<lparr>circuitState := cs\<rparr> in
              if hasQuota (limits e) (storage w1) providerName (read_clock e w1) then
                (case search e providerName StackSite w1 of
                   (Inr found, w2) \<Rightarrow>
                     (let w3 = w2\<lparr>storage := recordUsage (limits e) (storage w2) providerName False (read_clock e w2)\<rparr>;
                          w4 = w3\<lparr>circuitState := recordSuccess (circuitState w3) providerName\<rparr>
                      in (Some \<lparr>results = found, provider = providerName, usedPaidTier = False\<rparr>, w4))
                 | (Inl err, w2) \<Rightarrow>
                     route_stack e rest
                       (w2\<lparr>circuitState := recordFailure (circuitState w2) providerName (epoch_ms (read_clock e w2))\<rparr>))
              else route_stack e rest w1)))"

text \<open>\<^verbatim>\<open>route(options)\<close>: the result or the rejection, and the state left behind.\<close>

definition route :: "env \<Rightarrow> RouteOptions \<Rightarrow> world \<Rightarrow> (thrown + RouteResult) \<times> world" where
  "route e options w =
     (let stack = (if preferGoogle options then googleStack else defaultStack) in
      if includeContent options then
        (if ''jina_search'' \<in> set (providers e) then
           (case search e ''jina_search'' ContentSite w of
              (Inr found, w1) \<Rightarrow>
                (Inr \<lparr>results = found, provider = ''jina_search'', usedPaidTier = False\<rparr>,
                 w1\<lparr>storage := recordUsage (limits e) (storage w1) ''jina_search'' False (read_clock e w1)\<rparr>)
            | (Inl err, w1) \<Rightarrow> (Inl err, w1))
         else (Inl (Error ''Jina Search API key required for include_content option''), w))
      else
        (case route_stack e stack w of
           (Some r, w1) \<Rightarrow> (Inr r, w1)
         | (None, w1) \<Rightarrow>
             (let paidProvider = (if preferGoogle options then ''serper'' else ''jina_search'') in
              if paidProvider \<in> set (providers e) then
                (case search e paidProvider PaidSite w1 of
                   (Inr found, w2) \<Rightarrow>
                     (Inr \<lparr>results = found, provider = paidProvider, usedPaidTier = True\<rparr>,
                      w2\<lparr>storage := recordUsage (limits e) (storage w2) paidProvider True (read_clock e w2)\<rparr>)
                 | (Inl err, w2) \<Rightarrow> (Inl err, w2))
              else
                (Inl (Error ''No search providers available. Please configure at least one API key.''),
                 w1))))"

text \<open>
  Two conditions on a recorded call, given its call number \<open>i\<close>, which fixes the
  instant at which the router read the clock before making it. \<open>guarded\<close> is the
  condition of the stack loop: the provider is registered, its circuit is not open and
  it has free quota left. \<open>attempt_allowed\<close> is the invariant as the specification
  words it: registered, circuit not open, and quota left or serving as the paid fallback.
\<close>

definition guarded :: "env \<Rightarrow> nat \<Rightarrow> invocation \<Rightarrow> bool" where
  "guarded e i c =
     (inv_provider c \<in> set (providers e)
      \<and> \<not> fst (isCircuitOpen (inv_circuit c) (inv_provider c) (epoch_ms (clock e i)))
      \<and> hasQuota (limits e) (inv_storage c) (inv_provider c) (clock e i))"

definition attempt_allowed :: "env \<Rightarrow> nat \<Rightarrow> invocation \<Rightarrow> bool" where
  "attempt_allowed e i c =
     (inv_provider c \<in> set (providers e)
      \<and> \<not> fst (isCircuitOpen (inv_circuit c) (inv_provider c) (epoch_ms (clock e i)))
      \<and> (hasQuota (limits e) (inv_storage c) (inv_provider c) (clock e i)
           \<or> inv_site c = PaidSite))"

subsection \<open>Unified web search\<close>





record UnifiedWebSearchParams =
  param_query :: string
  param_limit :: "nat option"
  param_provider :: "string option"
  include_content :: bool


subsection \<open>Example configuration\<close>

text \<open>
  A limits table to run the functions on: the six entries that
  \<^verbatim>\<open>docs/BUDGET_ROUTING_IMPLEMENTATION_PLAN.md\<close> gives for \<^verbatim>\<open>PROVIDER_LIMITS\<close>, and one
  paid-only entry to exercise that type.
\<close>

definition example_limits :: limits_table where
  "example_limits =
     \<lparr>limit_keys = [''brave'', ''tavily'', ''exa'', ''jina_search'', ''serper'', ''youcom'', ''kagi''],
      PROVIDER_LIMITS = (\<lambda>p.
        if p = ''brave'' then \<lparr>limit = 2000, reset_type = Monthly, cost_per_query = 0\<rparr>
        else if p = ''tavily'' then \<lparr>limit = 1000, reset_type = Monthly, cost_per_query = 0\<rparr>
        else if p = ''exa'' then \<lparr>limit = 2000, reset_type = Lifetime, cost_per_query = 0\<rparr>
        else if p = ''jina_search'' then \<lparr>limit = 1000, reset_type = Lifetime, cost_per_query = 0\<rparr>
        else if p = ''serper'' then \<lparr>limit = 2500, reset_type = Lifetime, cost_per_query = 0\<rparr>
        else if p = ''youcom'' then \<lparr>limit = 16000, reset_type = Lifetime, cost_per_query = 0\<rparr>
        else \<lparr>limit = 0, reset_type = Paid, cost_per_query = 25 / 1000\<rparr>)\<rparr>"

definition feb_2026 :: instant where
  "feb_2026 = \<lparr>epoch_ms = 1770000000000, utc_year = 2026, utc_month = 2\<rparr>"

definition mar_2026 :: instant where
  "mar_2026 = \<lparr>epoch_ms = 1772500000000, utc_year = 2026, utc_month = 3\<rparr>"

text \<open>
  Router configurations and states to run \<open>route\<close> on: a fresh state; a router with
  every provider of the stacks registered and answering; a router with only
  \<^verbatim>\<open>jina_search\<close> registered, answering or failing every search; a state in which
  the circuit of \<^verbatim>\<open>jina_search\<close> has just been opened by three failures; and a state
  in which \<^verbatim>\<open>jina_search\<close> has used up its free quota.
\<close>

definition fresh_world :: world where
  "fresh_world = \<lparr>storage = Missing, circuitState = Map.empty, calls = []\<rparr>"

definition plain_options :: RouteOptions where
  "plain_options = \<lparr>query = ''mcp servers'', opt_limit = None, preferGoogle = False,
                     includeContent = False\<rparr>"

definition content_options :: RouteOptions where
  "content_options = \<lparr>query = ''mcp servers'', opt_limit = None, preferGoogle = False,
                       includeContent = True\<rparr>"

definition all_up_env :: env where
  "all_up_env = \<lparr>providers = [''brave'', ''tavily'', ''exa'', ''jina_search'', ''serper'', ''youcom''],
                  limits = example_limits,
                  respond = (\<lambda>n p. Inr [''https://modelcontextprotocol.io'']),
                  clock = (\<lambda>n. feb_2026)\<rparr>"

definition jina_only_env :: env where
  "jina_only_env = \<lparr>providers = [''jina_search''],
                     limits = example_limits,
                     respond = (\<lambda>n p. Inr [''https://modelcontextprotocol.io'']),
                     clock = (\<lambda>n. feb_2026)\<rparr>"

definition jina_down_env :: env where
  "jina_down_env = \<lparr>providers = [''jina_search''],
                     limits = example_limits,
                     respond = (\<lambda>n p. Inl (ProviderFailure ''HTTP 503'')),
                     clock = (\<lambda>n. feb_2026)\<rparr>"

definition tripped_world :: world where
  "tripped_world =
     \<lparr>storage = Missing,
      circuitState = recordFailure (recordFailure (recordFailure Map.empty ''jina_search''
          1769999997000) ''jina_search'' 1769999998000) ''jina_search'' 1769999999000,
      calls = []\<rparr>"

definition exhausted_world :: world where
  "exhausted_world =
     \<lparr>storage = Document [''jina_search:lifetime'' \<mapsto> 1000], circuitState = Map.empty,
      calls = []\<rparr>"





section \<open>Circuit breaker properties\<close>

lemma recordFailure_failures:
  "\<exists>s. recordFailure cs p t p = Some s \<and>
       failures s = (case cs p of None \<Rightarrow> 1 | Some s0 \<Rightarrow> failures s0 + 1) \<and>
       (maxFailures \<le> failures s \<longrightarrow> cooldownUntil s = t + cooldownMs)"
  by (simp add: recordFailure_def Let_def split: option.splits)

lemma three_failures_cooldown:
  "\<exists>s. recordFailure (recordFailure (recordFailure cs p t1) p t2) p t3 p = Some s \<and>
       maxFailures \<le> failures s \<and> cooldownUntil s = t3 + cooldownMs"
proof -
  obtain s1 where s1: "recordFailure cs p t1 p = Some s1" "1 \<le> failures s1"
    using recordFailure_failures [of cs p t1] by (auto split: option.splits)
  obtain s2 where s2: "recordFailure (recordFailure cs p t1) p t2 p = Some s2"
      "failures s2 = failures s1 + 1"
    using recordFailure_failures [of "recordFailure cs p t1" p t2] s1 by auto
  obtain s3 where s3:
      "recordFailure (recordFailure (recordFailure cs p t1) p t2) p t3 p = Some s3"
      "failures s3 = failures s2 + 1"
      "maxFailures \<le> failures s3 \<longrightarrow> cooldownUntil s3 = t3 + cooldownMs"
    using recordFailure_failures [of "recordFailure (recordFailure cs p t1) p t2" p t3] s2
    by auto
  have "maxFailures \<le> failures s3"
    using s1 s2 s3 by (simp add: maxFailures_def)
  with s3 show ?thesis by simp
qed

text \<open>
  C4. Whatever the circuit state was before, after three failures of provider \<open>p\<close>
  recorded in a row (at instants \<open>t1\<close>, \<open>t2\<close>, \<open>t3\<close>) the circuit of \<open>p\<close> is open at
  every instant \<open>now\<close> before the end of the five-minute cooldown that the third failure
  started; two failures of a provider that had no record do not open it. And one recorded
  success, in any state \<open>cs'\<close> and whatever the cooldown, deletes the record of \<open>p\<close>: the
  reported failure count is 0 and the circuit is not open at any instant.
\<close>

theorem three_failures_open_success_resets:
  "now < t3 + 5 * 60 * 1000 \<Longrightarrow>
   fst (isCircuitOpen (recordFailure (recordFailure (recordFailure cs p t1) p t2) p t3) p now)
   \<and> (cs p = None \<and> 0 \<le> now \<longrightarrow>
        \<not> fst (isCircuitOpen (recordFailure (recordFailure cs p t1) p t2) p now))
   \<and> recordSuccess cs' p p = None
   \<and> health_failures (getHealthStatus (recordSuccess cs' p) p now') = 0
   \<and> \<not> fst (isCircuitOpen (recordSuccess cs' p) p now')"
proof -
  assume lt: "now < t3 + 5 * 60 * 1000"
  obtain s where s:
      "recordFailure (recordFailure (recordFailure cs p t1) p t2) p t3 p = Some s"
      "cooldownUntil s = t3 + cooldownMs"
    using three_failures_cooldown [of cs p t1 t2 t3] by auto
  have "fst (isCircuitOpen (recordFailure (recordFailure (recordFailure cs p t1) p t2) p t3) p now)"
    using s lt by (simp add: isCircuitOpen_def cooldownMs_def)
  moreover have "recordSuccess cs' p p = None"
    by (simp add: recordSuccess_def)
  moreover have "cs p = None \<and> 0 \<le> now \<longrightarrow>
      \<not> fst (isCircuitOpen (recordFailure (recordFailure cs p t1) p t2) p now)"
    by (simp add: isCircuitOpen_def recordFailure_def maxFailures_def)
  ultimately show ?thesis
    by (simp add: getHealthStatus_def isCircuitOpen_def)
qed

theorem three_failures_open_success_resets_witness:
  "fst (isCircuitOpen (recordFailure (recordFailure (recordFailure Map.empty ''brave'' 1000)
          ''brave'' 2000) ''brave'' 3000) ''brave'' 302999)
   \<and> \<not> fst (isCircuitOpen (recordSuccess (recordFailure (recordFailure (recordFailure Map.empty
          ''brave'' 1000) ''brave'' 2000) ''brave'' 3000) ''brave'') ''brave'' 3001)
   \<and> \<not> fst (isCircuitOpen (recordFailure (recordFailure Map.empty ''brave'' 1000)
          ''brave'' 2000) ''brave'' 302999)"
  using three_failures_open_success_resets
    [of 302999 3000 Map.empty "''brave''" 1000 2000
        "recordFailure (recordFailure (recordFailure Map.empty ''brave'' 1000) ''brave'' 2000)
           ''brave'' 3000" 3001]
  by simp

text \<open>
  C5. For a provider with a circuit record \<open>s\<close>, \<open>isCircuitOpen\<close> answers true exactly
  when \<open>cooldownUntil s\<close> lies in the future, and then leaves the state map alone. Once the
  cooldown has elapsed it answers false, and if the failure count is still at the threshold
  of 3 or above, the record of that provider, and no other, is deleted from the map.
\<close>

theorem isCircuitOpen_cooldown:
  "cs p = Some s \<Longrightarrow>
   fst (isCircuitOpen cs p now) = (now < cooldownUntil s)
   \<and> (now < cooldownUntil s \<longrightarrow> snd (isCircuitOpen cs p now) = cs)
   \<and> (cooldownUntil s \<le> now \<and> 3 \<le> failures s \<longrightarrow>
        \<not> fst (isCircuitOpen cs p now) \<and> snd (isCircuitOpen cs p now) = cs(p := None))
   \<and> (cooldownUntil s \<le> now \<and> failures s < 3 \<longrightarrow>
        \<not> fst (isCircuitOpen cs p now) \<and> snd (isCircuitOpen cs p now) = cs)"
  by (simp add: isCircuitOpen_def maxFailures_def)

theorem isCircuitOpen_cooldown_witness:
  "fst (isCircuitOpen [''exa'' \<mapsto> \<lparr>failures = 3, lastFailure = 10, cooldownUntil = 300010\<rparr>]
          ''exa'' 300009)
   \<and> \<not> fst (isCircuitOpen [''exa'' \<mapsto> \<lparr>failures = 3, lastFailure = 10, cooldownUntil = 300010\<rparr>]
          ''exa'' 300010)
   \<and> snd (isCircuitOpen [''exa'' \<mapsto> \<lparr>failures = 3, lastFailure = 10, cooldownUntil = 300010\<rparr>]
          ''exa'' 300010) ''exa'' = None"
  using isCircuitOpen_cooldown
    [of "[''exa'' \<mapsto> \<lparr>failures = 3, lastFailure = 10, cooldownUntil = 300010\<rparr>]" "''exa''"
        "\<lparr>failures = 3, lastFailure = 10, cooldownUntil = 300010\<rparr>" 300009]
    isCircuitOpen_cooldown
    [of "[''exa'' \<mapsto> \<lparr>failures = 3, lastFailure = 10, cooldownUntil = 300010\<rparr>]" "''exa''"
        "\<lparr>failures = 3, lastFailure = 10, cooldownUntil = 300010\<rparr>" 300010]
  by simp

section \<open>Storage keys\<close>

lemma pad_numeral: "pad (numeral k) n = pad (pred_numeral k) (n div 10) @ [digit n]"
  by (subst numeral_eq_Suc) simp

lemma digit_value_table: "\<forall>m\<in>set [0..<10]. digit_value (''0123456789'' ! m) = m"
  by (simp add: digit_value_def upt_rec)

lemma digit_value_digit: "digit_value (digit n) = n mod 10"
  using digit_value_table by (simp add: digit_def)

lemma foldl_decimal_pad:
  "foldl (\<lambda>a c. 10 * a + digit_value c) a0 (pad k n) = a0 * 10 ^ k + n mod 10 ^ k"
proof (induction k arbitrary: n a0)
  case 0
  then show ?case by simp
next
  case (Suc k)
  have "n mod (10 * 10 ^ k) = 10 * ((n div 10) mod 10 ^ k) + n mod 10"
    by (simp add: mod_mult2_eq)
  then show ?case
    using Suc by (simp add: digit_value_digit algebra_simps)
qed

lemma decimal_pad: "decimal (pad k n) = n mod 10 ^ k"
  by (simp add: decimal_def foldl_decimal_pad)

lemma length_pad: "length (pad k n) = k"
  by (induction k arbitrary: n) auto

lemma iso_month_shape:
  assumes "0 \<le> utc_year t" "utc_year t \<le> 9999" "utc_month t < 100"
  shows "\<exists>y m. toISOString_slice_0_7 t = y @ ''-'' @ m \<and> length y = 4 \<and> length m = 2 \<and>
           decimal y = nat (utc_year t) \<and> decimal m = utc_month t"
proof -
  have "nat (utc_year t) < 10 ^ 4"
    using assms by simp
  then have "decimal (pad 4 (nat (utc_year t))) = nat (utc_year t)"
    by (simp add: decimal_pad)
  moreover have "decimal (pad 2 (utc_month t)) = utc_month t"
    using assms by (simp add: decimal_pad)
  ultimately show ?thesis
    using assms by (auto simp add: toISOString_slice_0_7_def length_pad intro!: exI)
qed

lemma iso_month_inj:
  assumes "0 \<le> utc_year t" "utc_year t \<le> 9999" "utc_month t < 100"
      and "0 \<le> utc_year t'" "utc_year t' \<le> 9999" "utc_month t' < 100"
      and eq: "toISOString_slice_0_7 t = toISOString_slice_0_7 t'"
  shows "utc_year t = utc_year t' \<and> utc_month t = utc_month t'"
proof -
  obtain y m where a: "toISOString_slice_0_7 t = y @ ''-'' @ m" "length y = 4"
      "decimal y = nat (utc_year t)" "decimal m = utc_month t"
    using iso_month_shape [OF assms(1-3)] by blast
  obtain y' m' where b: "toISOString_slice_0_7 t' = y' @ ''-'' @ m'" "length y' = 4"
      "decimal y' = nat (utc_year t')" "decimal m' = utc_month t'"
    using iso_month_shape [OF assms(4-6)] by blast
  have "y @ ''-'' @ m = y' @ ''-'' @ m'"
    using a b eq by simp
  then have "y = y' \<and> m = m'"
    using a(2) b(2) by simp
  then show ?thesis
    using a b assms by simp
qed

text \<open>
  C6. For a provider of monthly reset type, at an instant whose UTC year has four digits
  (0 to 9999) and whose month is 1 to 12, the storage key is the provider name, a colon,
  the four digits of the year, a dash and the two digits of the month; two such instants
  give the same key exactly when they lie in the same UTC year and month. For a lifetime
  provider the key is the name followed by \<open>:lifetime\<close>, for a paid one the name
  followed by \<open>:paid\<close>.
\<close>

theorem getStorageKey_scheme:
  "(reset_type (PROVIDER_LIMITS tbl p) = Monthly \<and> 0 \<le> utc_year t \<and> utc_year t \<le> 9999
      \<and> 1 \<le> utc_month t \<and> utc_month t \<le> 12 \<longrightarrow>
      (\<exists>y m. getStorageKey tbl p t = p @ '':'' @ y @ ''-'' @ m \<and> length y = 4 \<and> length m = 2
            \<and> decimal y = nat (utc_year t) \<and> decimal m = utc_month t)
      \<and> (\<forall>t'. 0 \<le> utc_year t' \<and> utc_year t' \<le> 9999 \<and> 1 \<le> utc_month t' \<and> utc_month t' \<le> 12 \<longrightarrow>
            (getStorageKey tbl p t' = getStorageKey tbl p t) =
            (utc_year t' = utc_year t \<and> utc_month t' = utc_month t)))
   \<and> (reset_type (PROVIDER_LIMITS tbl p) = Lifetime \<longrightarrow> getStorageKey tbl p t = p @ '':lifetime'')
   \<and> (reset_type (PROVIDER_LIMITS tbl p) = Paid \<longrightarrow> getStorageKey tbl p t = p @ '':paid'')"
proof -
  have shape: "\<exists>y m. getStorageKey tbl p t = p @ '':'' @ y @ ''-'' @ m \<and> length y = 4 \<and> length m = 2
            \<and> decimal y = nat (utc_year t) \<and> decimal m = utc_month t"
    if "reset_type (PROVIDER_LIMITS tbl p) = Monthly" "0 \<le> utc_year t" "utc_year t \<le> 9999"
       "utc_month t \<le> 12"
  proof -
    have "utc_month t < 100"
      using that by simp
    from iso_month_shape [OF that(2,3) this] that(1) show ?thesis
      by (auto simp add: getStorageKey_def)
  qed
  have inj: "(getStorageKey tbl p t' = getStorageKey tbl p t) =
            (utc_year t' = utc_year t \<and> utc_month t' = utc_month t)"
    if "reset_type (PROVIDER_LIMITS tbl p) = Monthly" "0 \<le> utc_year t" "utc_year t \<le> 9999"
       "utc_month t \<le> 12" "0 \<le> utc_year t'" "utc_year t' \<le> 9999" "utc_month t' \<le> 12" for t'
  proof
    assume "getStorageKey tbl p t' = getStorageKey tbl p t"
    then have "toISOString_slice_0_7 t' = toISOString_slice_0_7 t"
      using that(1) by (simp add: getStorageKey_def)
    moreover have "utc_month t < 100" "utc_month t' < 100"
      using that by simp_all
    ultimately show "utc_year t' = utc_year t \<and> utc_month t' = utc_month t"
      using iso_month_inj [of t' t] that by simp
  next
    assume "utc_year t' = utc_year t \<and> utc_month t' = utc_month t"
    then show "getStorageKey tbl p t' = getStorageKey tbl p t"
      by (simp add: getStorageKey_def toISOString_slice_0_7_def Let_def)
  qed
  show ?thesis
    using shape inj by (simp add: getStorageKey_def)
qed

theorem getStorageKey_scheme_witness:
  "reset_type (PROVIDER_LIMITS example_limits ''brave'') = Monthly
   \<and> getStorageKey example_limits ''brave'' feb_2026 = ''brave:2026-02''
   \<and> (\<exists>y m. getStorageKey example_limits ''brave'' feb_2026 = ''brave:'' @ y @ ''-'' @ m
          \<and> decimal y = 2026 \<and> decimal m = 2)
   \<and> getStorageKey example_limits ''brave'' mar_2026 \<noteq> getStorageKey example_limits ''brave'' feb_2026
   \<and> getStorageKey example_limits ''exa'' feb_2026 = ''exa:lifetime''
   \<and> getStorageKey example_limits ''kagi'' feb_2026 = ''kagi:paid''"
proof -
  have key: "getStorageKey example_limits ''brave'' feb_2026 = ''brave:2026-02''"
    by (simp add: getStorageKey_def example_limits_def feb_2026_def toISOString_slice_0_7_def
          pad_numeral digit_def)
  have a: "reset_type (PROVIDER_LIMITS example_limits ''brave'') = Monthly"
    by (simp add: example_limits_def)
  have b: "0 \<le> utc_year feb_2026 \<and> utc_year feb_2026 \<le> 9999 \<and> 1 \<le> utc_month feb_2026
           \<and> utc_month feb_2026 \<le> 12"
    by (simp add: feb_2026_def)
  have c: "0 \<le> utc_year mar_2026 \<and> utc_year mar_2026 \<le> 9999 \<and> 1 \<le> utc_month mar_2026
           \<and> utc_month mar_2026 \<le> 12 \<and> utc_month mar_2026 \<noteq> utc_month feb_2026"
    by (simp add: mar_2026_def feb_2026_def)
  have d: "reset_type (PROVIDER_LIMITS example_limits ''exa'') = Lifetime"
          "reset_type (PROVIDER_LIMITS example_limits ''kagi'') = Paid"
    by (simp_all add: example_limits_def)
  have e: "utc_year feb_2026 = 2026" "utc_month feb_2026 = 2"
    by (simp_all add: feb_2026_def)
  from getStorageKey_scheme [of example_limits "''brave''" feb_2026] a b
  have ex: "\<exists>y m. getStorageKey example_limits ''brave'' feb_2026 = ''brave'' @ '':'' @ y @ ''-'' @ m
        \<and> length y = 4 \<and> length m = 2
        \<and> decimal y = nat (utc_year feb_2026) \<and> decimal m = utc_month feb_2026"
    and inj: "\<forall>t'. 0 \<le> utc_year t' \<and> utc_year t' \<le> 9999 \<and> 1 \<le> utc_month t' \<and> utc_month t' \<le> 12 \<longrightarrow>
        (getStorageKey example_limits ''brave'' t' = getStorageKey example_limits ''brave'' feb_2026) =
        (utc_year t' = utc_year feb_2026 \<and> utc_month t' = utc_month feb_2026)"
    by blast+
  from ex e have ex': "\<exists>y m. getStorageKey example_limits ''brave'' feb_2026 = ''brave:'' @ y @ ''-'' @ m
          \<and> decimal y = 2026 \<and> decimal m = 2"
    by auto
  from inj c have ne: "getStorageKey example_limits ''brave'' mar_2026
      \<noteq> getStorageKey example_limits ''brave'' feb_2026"
    by blast
  from getStorageKey_scheme [of example_limits "''exa''" feb_2026] d
  have f: "getStorageKey example_limits ''exa'' feb_2026 = ''exa:lifetime''"
    by simp
  from getStorageKey_scheme [of example_limits "''kagi''" feb_2026] d
  have g: "getStorageKey example_limits ''kagi'' feb_2026 = ''kagi:paid''"
    by simp
  show ?thesis
    using a key ex' ne f g by blast
qed

section \<open>The local-file backend\<close>

text \<open>
  C9. When the usage file is missing or cannot be parsed, \<open>load\<close> gives the empty
  mapping instead of an error, so \<open>get\<close> returns 0 for every key; and whatever the file
  holds, \<open>get\<close> returns 0 for a key that the mapping lacks. \<open>get\<close> has no failing
  branch: its result is always a number.
\<close>

theorem get_missing_or_corrupt:
  "(f = Missing \<or> f = Unparseable \<longrightarrow>
      load f = Map.empty \<and> getAll f = Map.empty \<and> (\<forall>key. get f key = 0))
   \<and> (load f key = None \<longrightarrow> get f key = 0)"
  by (auto simp add: load_def get_def getAll_def or_zero_def)

theorem get_missing_or_corrupt_witness:
  "get Missing ''brave:2026-02'' = 0 \<and> get Unparseable ''exa:lifetime'' = 0
   \<and> get (Document [''exa:lifetime'' \<mapsto> 7]) ''serper:lifetime'' = 0
   \<and> get (Document [''exa:lifetime'' \<mapsto> 7]) ''exa:lifetime'' = 7"
  using get_missing_or_corrupt [of Missing "''brave:2026-02''"]
    get_missing_or_corrupt [of Unparseable "''exa:lifetime''"]
    get_missing_or_corrupt [of "Document [''exa:lifetime'' \<mapsto> 7]" "''serper:lifetime''"]
  by (simp add: load_def get_def or_zero_def)

section \<open>Usage statistics\<close>

lemma monthly_stats_entry:
  "monthly (stats_entry tbl au cm cs t s k) p =
     (if p = k \<and> reset_type (PROVIDER_LIMITS tbl p) = Monthly
      then Some \<lparr>quota_used = or_zero (au (p @ '':'' @ cm)),
                 quota_limit = limit (PROVIDER_LIMITS tbl p),
                 quota_remaining = max 0 (limit (PROVIDER_LIMITS tbl p) - or_zero (au (p @ '':'' @ cm)))\<rparr>
      else monthly s p)"
  by (cases "reset_type (PROVIDER_LIMITS tbl k)")
     (auto simp add: stats_entry_def Let_def)

lemma lifetime_stats_entry:
  "lifetime (stats_entry tbl au cm cs t s k) p =
     (if p = k \<and> reset_type (PROVIDER_LIMITS tbl p) = Lifetime
      then Some \<lparr>quota_used = or_zero (au (p @ '':lifetime'')),
                 quota_limit = limit (PROVIDER_LIMITS tbl p),
                 quota_remaining = max 0 (limit (PROVIDER_LIMITS tbl p) - or_zero (au (p @ '':lifetime'')))\<rparr>
      else lifetime s p)"
  by (cases "reset_type (PROVIDER_LIMITS tbl k)")
     (auto simp add: stats_entry_def Let_def)

lemma monthly_foldl:
  "monthly (foldl (stats_entry tbl au cm cs t) s ks) p =
     (if p \<in> set ks \<and> reset_type (PROVIDER_LIMITS tbl p) = Monthly
      then Some \<lparr>quota_used = or_zero (au (p @ '':'' @ cm)),
                 quota_limit = limit (PROVIDER_LIMITS tbl p),
                 quota_remaining = max 0 (limit (PROVIDER_LIMITS tbl p) - or_zero (au (p @ '':'' @ cm)))\<rparr>
      else monthly s p)"
  by (induction ks arbitrary: s) (auto simp add: monthly_stats_entry)

lemma lifetime_foldl:
  "lifetime (foldl (stats_entry tbl au cm cs t) s ks) p =
     (if p \<in> set ks \<and> reset_type (PROVIDER_LIMITS tbl p) = Lifetime
      then Some \<lparr>quota_used = or_zero (au (p @ '':lifetime'')),
                 quota_limit = limit (PROVIDER_LIMITS tbl p),
                 quota_remaining = max 0 (limit (PROVIDER_LIMITS tbl p) - or_zero (au (p @ '':lifetime'')))\<rparr>
      else lifetime s p)"
  by (induction ks arbitrary: s) (auto simp add: lifetime_stats_entry)

text \<open>
  C10. For every provider of the limits table with a free tier (monthly or lifetime),
  \<open>getUsageStats\<close> reports an entry, under \<open>monthly\<close> or \<open>lifetime\<close> as its type
  says, whose \<open>used\<close> is the counter stored under the provider's storage key, whose
  \<open>limit\<close> is the configured limit, and whose \<open>remaining\<close> is the limit minus the used
  count, clamped at zero: it is never negative, also when the used count exceeds the
  limit.
\<close>

theorem getUsageStats_remaining:
  "p \<in> set (limit_keys tbl) \<Longrightarrow> reset_type (PROVIDER_LIMITS tbl p) \<noteq> Paid \<Longrightarrow>
   \<exists>e. (if reset_type (PROVIDER_LIMITS tbl p) = Monthly
         then monthly (getUsageStats tbl f cs t) p
         else lifetime (getUsageStats tbl f cs t) p) = Some e
       \<and> quota_used e = get f (getStorageKey tbl p t)
       \<and> quota_limit e = limit (PROVIDER_LIMITS tbl p)
       \<and> quota_remaining e = max 0 (quota_limit e - quota_used e)
       \<and> 0 \<le> quota_remaining e"
  by (cases "reset_type (PROVIDER_LIMITS tbl p)")
     (simp_all add: getUsageStats_def Let_def monthly_foldl lifetime_foldl
        getStorageKey_def get_def getAll_def)

theorem getUsageStats_remaining_witness:
  "\<exists>e. lifetime (getUsageStats example_limits (Document [''jina_search:lifetime'' \<mapsto> 1003])
          Map.empty feb_2026) ''jina_search'' = Some e
       \<and> quota_used e = 1003 \<and> quota_limit e = 1000 \<and> quota_remaining e = 0"
proof -
  have h1: "''jina_search'' \<in> set (limit_keys example_limits)"
    by (simp add: example_limits_def)
  have h2: "reset_type (PROVIDER_LIMITS example_limits ''jina_search'') \<noteq> Paid"
    by (simp add: example_limits_def)
  have h3: "reset_type (PROVIDER_LIMITS example_limits ''jina_search'') = Lifetime"
      "limit (PROVIDER_LIMITS example_limits ''jina_search'') = 1000"
    by (simp_all add: example_limits_def)
  have h4: "get (Document [''jina_search:lifetime'' \<mapsto> 1003])
      (getStorageKey example_limits ''jina_search'' feb_2026) = 1003"
    by (simp add: h3 getStorageKey_def get_def load_def or_zero_def)
  show ?thesis
    using getUsageStats_remaining [OF h1 h2,
        of "Document [''jina_search:lifetime'' \<mapsto> 1003]" Map.empty feb_2026] h3 h4
    by auto
qed

section \<open>The routing loop\<close>

text \<open>
  Facts about the stack loop, by induction on the stack: what it leaves in the usage
  storage, and which searches it adds to the record of calls.
\<close>

lemma isCircuitOpen_closed_stable:
  "isCircuitOpen cs p t = (False, cs') \<Longrightarrow> \<not> fst (isCircuitOpen cs' p t)"
  by (auto simp add: isCircuitOpen_def split: option.splits if_splits)

lemma route_stack_storage:
  "route_stack e ps w = (r, w') \<Longrightarrow>
   (case r of
      None \<Rightarrow> storage w' = storage w
    | Some res \<Rightarrow>
        \<not> usedPaidTier res \<and> provider res \<in> set ps \<and> provider res \<in> set (providers e)
        \<and> storage w' = recordUsage (limits e) (storage w) (provider res) False
                          (clock e (length (calls w')))
        \<and> calls w' \<noteq> [] \<and> inv_site (last (calls w')) = StackSite
        \<and> inv_provider (last (calls w')) = provider res)"
proof (induction ps arbitrary: w)
  case Nil
  then show ?case by auto
next
  case (Cons p ps)
  show ?case
  proof (cases "p \<in> set (providers e)")
    case False
    with Cons.prems have "route_stack e ps w = (r, w')" by simp
    from Cons.IH [OF this] show ?thesis by (auto split: option.splits)
  next
    case True
    obtain b cs where ico: "isCircuitOpen (circuitState w) p (epoch_ms (read_clock e w)) = (b, cs)"
      by (cases "isCircuitOpen (circuitState w) p (epoch_ms (read_clock e w))")
    define w1 where "w1 = w\<lparr>circuitState := cs\<rparr>"
    show ?thesis
    proof (cases "b \<or> \<not> hasQuota (limits e) (storage w1) p (read_clock e w1)")
      case skip: True
      with Cons.prems True ico have "route_stack e ps w1 = (r, w')"
        by (auto simp add: w1_def Let_def split: bool.splits)
      from Cons.IH [OF this] show ?thesis by (auto simp add: w1_def split: option.splits)
    next
      case attempt: False
      obtain out w2 where s: "search e p StackSite w1 = (out, w2)"
        by (cases "search e p StackSite w1")
      then have w2: "w2 = w1\<lparr>calls := calls w1 @ [\<lparr>inv_provider = p, inv_site = StackSite,
                              inv_storage = storage w1, inv_circuit = circuitState w1\<rparr>]\<rparr>"
        by (auto simp add: search_def)
      show ?thesis
      proof (cases out)
        case (Inr found)
        with Cons.prems True ico attempt s have
          "r = Some \<lparr>results = found, provider = p, usedPaidTier = False\<rparr>"
          "w' = w2\<lparr>storage := recordUsage (limits e) (storage w2) p False (read_clock e w2),
                  circuitState := recordSuccess (circuitState w2) p\<rparr>"
          by (auto simp add: w1_def Let_def split: bool.splits)
        then show ?thesis using True by (simp add: w2 w1_def read_clock_def)
      next
        case (Inl err)
        with Cons.prems True ico attempt s have "route_stack e ps
            (w2\<lparr>circuitState := recordFailure (circuitState w2) p (epoch_ms (read_clock e w2))\<rparr>) = (r, w')"
          by (auto simp add: w1_def Let_def split: bool.splits)
        from Cons.IH [OF this] show ?thesis by (auto simp add: w2 w1_def split: option.splits)
      qed
    qed
  qed
qed

lemma route_stack_calls:
  "route_stack e ps w = (r, w') \<Longrightarrow>
   \<exists>new. calls w' = calls w @ new \<and>
     (\<forall>(i, c) \<in> set (enumerate (length (calls w)) new).
        inv_site c = StackSite \<and> inv_provider c \<in> set ps \<and> guarded e i c)"
proof (induction ps arbitrary: w)
  case Nil
  then show ?case by auto
next
  case (Cons p ps)
  show ?case
  proof (cases "p \<in> set (providers e)")
    case False
    with Cons.prems have "route_stack e ps w = (r, w')" by simp
    from Cons.IH [OF this] show ?thesis by fastforce
  next
    case True
    obtain b cs where ico: "isCircuitOpen (circuitState w) p (epoch_ms (read_clock e w)) = (b, cs)"
      by (cases "isCircuitOpen (circuitState w) p (epoch_ms (read_clock e w))")
    define w1 where "w1 = w\<lparr>circuitState := cs\<rparr>"
    show ?thesis
    proof (cases "b \<or> \<not> hasQuota (limits e) (storage w1) p (read_clock e w1)")
      case skip: True
      with Cons.prems True ico have "route_stack e ps w1 = (r, w')"
        by (auto simp add: w1_def Let_def split: bool.splits)
      from Cons.IH [OF this] show ?thesis by (fastforce simp add: w1_def)
    next
      case attempt: False
      define c0 where "c0 = \<lparr>inv_provider = p, inv_site = StackSite,
                              inv_storage = storage w1, inv_circuit = circuitState w1\<rparr>"
      have g: "guarded e (length (calls w)) c0"
        using attempt True ico isCircuitOpen_closed_stable [of "circuitState w" p _ cs]
        by (auto simp add: guarded_def c0_def w1_def read_clock_def)
      obtain out w2 where s: "search e p StackSite w1 = (out, w2)"
        by (cases "search e p StackSite w1")
      then have w2: "w2 = w1\<lparr>calls := calls w1 @ [c0]\<rparr>"
        by (auto simp add: search_def c0_def)
      show ?thesis
      proof (cases out)
        case (Inr found)
        with Cons.prems True ico attempt s have
          "w' = w2\<lparr>storage := recordUsage (limits e) (storage w2) p False (read_clock e w2),
                  circuitState := recordSuccess (circuitState w2) p\<rparr>"
          by (auto simp add: w1_def Let_def split: bool.splits)
        then have "calls w' = calls w @ [c0]"
          by (simp add: w2 w1_def)
        then show ?thesis using g by (auto simp add: c0_def)
      next
        case (Inl err)
        with Cons.prems True ico attempt s have "route_stack e ps
            (w2\<lparr>circuitState := recordFailure (circuitState w2) p (epoch_ms (read_clock e w2))\<rparr>) = (r, w')"
          by (auto simp add: w1_def Let_def split: bool.splits)
        from Cons.IH [OF this] obtain new where new: "calls w' = (calls w @ [c0]) @ new"
          "\<forall>(i, c) \<in> set (enumerate (Suc (length (calls w))) new).
             inv_site c = StackSite \<and> inv_provider c \<in> set ps \<and> guarded e i c"
          by (auto simp add: w2 w1_def)
        have "calls w' = calls w @ (c0 # new)" using new(1) by simp
        moreover have "\<forall>(i, c) \<in> set (enumerate (length (calls w)) (c0 # new)).
             inv_site c = StackSite \<and> inv_provider c \<in> set (p # ps) \<and> guarded e i c"
          using new(2) g by (auto simp add: c0_def)
        ultimately show ?thesis by blast
      qed
    qed
  qed
qed

text \<open>
  The unfolding rules that run the router on a concrete configuration.
\<close>

lemmas run_simps = route_def route_stack.simps defaultStack_def googleStack_def isCircuitOpen_def
  hasQuota_def getStorageKey_def example_limits_def get_def load_def or_zero_def search_def
  read_clock_def recordFailure_def recordSuccess_def recordUsage_def increment_def save_def
  Let_def maxFailures_def cooldownMs_def feb_2026_def

section \<open>Routing with \<open>includeContent\<close>\<close>

text \<open>
  C3. When \<open>includeContent\<close> is set, whatever the stacks, the usage counters and the
  circuit state: if \<^verbatim>\<open>jina_search\<close> is registered, \<open>route\<close> makes exactly one search,
  of \<^verbatim>\<open>jina_search\<close>, and returns its results under that provider name with
  \<open>usedPaidTier\<close> false, or its rejection if it fails; if \<^verbatim>\<open>jina_search\<close> is not
  registered, \<open>route\<close> rejects at once with the error that asks for the Jina key and
  leaves the state as it was, so that no provider has been tried.
\<close>

theorem route_includeContent:
  "includeContent options \<Longrightarrow>
   (''jina_search'' \<in> set (providers e) \<longrightarrow>
      calls (snd (route e options w)) =
        calls w @ [\<lparr>inv_provider = ''jina_search'', inv_site = ContentSite,
                    inv_storage = storage w, inv_circuit = circuitState w\<rparr>]
      \<and> (case respond e (length (calls w)) ''jina_search'' of
            Inr found \<Rightarrow> fst (route e options w) =
                           Inr \<lparr>results = found, provider = ''jina_search'', usedPaidTier = False\<rparr>
          | Inl err \<Rightarrow> fst (route e options w) = Inl err))
   \<and> (''jina_search'' \<notin> set (providers e) \<longrightarrow>
        route e options w =
          (Inl (Error ''Jina Search API key required for include_content option''), w))"
  by (simp add: route_def search_def split: sum.splits)

theorem route_includeContent_witness:
  "includeContent content_options
   \<and> calls (snd (route jina_only_env content_options tripped_world)) =
        [\<lparr>inv_provider = ''jina_search'', inv_site = ContentSite,
          inv_storage = Missing, inv_circuit = circuitState tripped_world\<rparr>]
   \<and> fst (route jina_only_env content_options tripped_world) =
        Inr \<lparr>results = [''https://modelcontextprotocol.io''], provider = ''jina_search'',
             usedPaidTier = False\<rparr>
   \<and> route (jina_only_env\<lparr>providers := [''brave'', ''serper'']\<rparr>) content_options fresh_world =
        (Inl (Error ''Jina Search API key required for include_content option''), fresh_world)"
  using route_includeContent [of content_options jina_only_env tripped_world]
    route_includeContent [of content_options "jina_only_env\<lparr>providers := [''brave'', ''serper'']\<rparr>"
      fresh_world]
  by (simp add: content_options_def jina_only_env_def tripped_world_def)

section \<open>Rejections of \<open>route\<close>\<close>

text \<open>
  C1, as stated, fails. With only \<^verbatim>\<open>jina_search\<close> registered and every search
  failing, the stack loop ends without success, the paid fallback \<^verbatim>\<open>jina_search\<close> is
  registered and its search fails too: \<open>route\<close> rejects with what that search rejected
  with, not with the error \<^verbatim>\<open>No search providers available\<close>.
\<close>

theorem route_fallback_failure_counterexample:
  "fst (route_stack jina_down_env defaultStack fresh_world) = None
   \<and> ''jina_search'' \<in> set (providers jina_down_env)
   \<and> respond jina_down_env 1 ''jina_search'' = Inl (ProviderFailure ''HTTP 503'')
   \<and> fst (route jina_down_env plain_options fresh_world) = Inl (ProviderFailure ''HTTP 503'')
   \<and> fst (route jina_down_env plain_options fresh_world)
       \<noteq> Inl (Error ''No search providers available. Please configure at least one API key.'')"
  by (simp add: run_simps jina_down_env_def fresh_world_def plain_options_def)

text \<open>
  C1, amended. Without \<open>includeContent\<close>, let the stack loop end in \<open>(r, w1)\<close>. If
  it ended without success and the designated paid provider is registered, \<open>route\<close>
  rejects with exactly what the paid provider's search rejected with (and returns its
  results, marked \<open>usedPaidTier\<close>, if it answered); if the paid provider is not
  registered, \<open>route\<close> rejects with \<^verbatim>\<open>No search providers available\<close>; if the loop
  succeeded, \<open>route\<close> returns that result. So every rejection of \<open>route\<close> comes after
  the loop fell through, and is either the paid fallback's own or the error for no
  provider: a failure inside the loop never reaches the caller.
\<close>

theorem route_rejection:
  "\<not> includeContent options \<Longrightarrow>
   route_stack e (if preferGoogle options then googleStack else defaultStack) w = (r, w1) \<Longrightarrow>
   (r = None \<and> (if preferGoogle options then ''serper'' else ''jina_search'') \<in> set (providers e) \<longrightarrow>
      (case respond e (length (calls w1)) (if preferGoogle options then ''serper'' else ''jina_search'') of
         Inl err \<Rightarrow> fst (route e options w) = Inl err
       | Inr found \<Rightarrow> fst (route e options w) =
           Inr \<lparr>results = found,
                provider = (if preferGoogle options then ''serper'' else ''jina_search''),
                usedPaidTier = True\<rparr>))
   \<and> (r = None \<and> (if preferGoogle options then ''serper'' else ''jina_search'') \<notin> set (providers e) \<longrightarrow>
        route e options w =
          (Inl (Error ''No search providers available. Please configure at least one API key.''), w1))
   \<and> (\<forall>res. r = Some res \<longrightarrow> route e options w = (Inr res, w1))
   \<and> (\<forall>err. fst (route e options w) = Inl err \<longrightarrow>
        r = None \<and>
        (if (if preferGoogle options then ''serper'' else ''jina_search'') \<in> set (providers e)
         then respond e (length (calls w1)) (if preferGoogle options then ''serper'' else ''jina_search'') = Inl err
         else err = Error ''No search providers available. Please configure at least one API key.''))"
  by (cases r) (auto simp add: route_def search_def Let_def split: sum.splits)

theorem route_rejection_witness:
  "\<not> includeContent plain_options
   \<and> fst (route_stack jina_down_env defaultStack fresh_world) = None
   \<and> fst (route jina_down_env plain_options fresh_world) = Inl (ProviderFailure ''HTTP 503'')
   \<and> fst (route (jina_down_env\<lparr>providers := []\<rparr>) plain_options fresh_world) =
        Inl (Error ''No search providers available. Please configure at least one API key.'')"
proof -
  have a: "\<not> includeContent plain_options" "\<not> preferGoogle plain_options"
    by (simp_all add: plain_options_def)
  have b: "route_stack jina_down_env (if preferGoogle plain_options then googleStack else defaultStack)
             fresh_world =
           (None, snd (route_stack jina_down_env defaultStack fresh_world))"
    by (simp add: run_simps jina_down_env_def fresh_world_def plain_options_def)
  have p: "''jina_search'' \<in> set (providers jina_down_env)"
    by (simp add: jina_down_env_def)
  have resp: "respond jina_down_env (length (calls (snd (route_stack jina_down_env defaultStack fresh_world))))
      ''jina_search'' = Inl (ProviderFailure ''HTTP 503'')"
    by (simp add: jina_down_env_def)
  have d: "route_stack (jina_down_env\<lparr>providers := []\<rparr>)
             (if preferGoogle plain_options then googleStack else defaultStack) fresh_world =
           (None, fresh_world)"
    by (simp add: run_simps plain_options_def)
  have q: "''jina_search'' \<notin> set (providers (jina_down_env\<lparr>providers := []\<rparr>))"
    by simp
  from route_rejection [OF a(1) b, THEN conjunct1] a(2) p resp
  have r1: "fst (route jina_down_env plain_options fresh_world) = Inl (ProviderFailure ''HTTP 503'')"
    by simp
  from route_rejection [OF a(1) d, THEN conjunct2, THEN conjunct1] a(2) q
  have r2: "fst (route (jina_down_env\<lparr>providers := []\<rparr>) plain_options fresh_world) =
        Inl (Error ''No search providers available. Please configure at least one API key.'')"
    by simp
  have r0: "fst (route_stack jina_down_env defaultStack fresh_world) = None"
    by (simp add: run_simps jina_down_env_def fresh_world_def)
  show ?thesis
    using a(1) r0 r1 r2 by blast
qed

section \<open>Which searches \<open>route\<close> makes\<close>

text \<open>
  C2, as stated, fails. With only \<^verbatim>\<open>jina_search\<close> registered and its circuit
  opened by three failures a second ago, the stack loop skips it, and the paid fallback
  then searches it all the same: the one call that \<open>route\<close> makes is of a provider
  whose circuit is open. In the same state a call with \<open>includeContent\<close> searches
  \<^verbatim>\<open>jina_search\<close> too, neither from the stack nor as paid fallback.
\<close>

theorem route_open_circuit_counterexample:
  "length (calls (snd (route jina_only_env plain_options tripped_world))) = 1
   \<and> inv_provider (hd (calls (snd (route jina_only_env plain_options tripped_world)))) = ''jina_search''
   \<and> inv_site (hd (calls (snd (route jina_only_env plain_options tripped_world)))) = PaidSite
   \<and> fst (isCircuitOpen (inv_circuit (hd (calls (snd (route jina_only_env plain_options tripped_world)))))
            ''jina_search'' (epoch_ms (clock jina_only_env 0)))
   \<and> \<not> attempt_allowed jina_only_env 0 (hd (calls (snd (route jina_only_env plain_options tripped_world))))
   \<and> length (calls (snd (route jina_only_env content_options tripped_world))) = 1
   \<and> inv_provider (hd (calls (snd (route jina_only_env content_options tripped_world)))) = ''jina_search''
   \<and> inv_site (hd (calls (snd (route jina_only_env content_options tripped_world)))) = ContentSite
   \<and> \<not> attempt_allowed jina_only_env 0 (hd (calls (snd (route jina_only_env content_options tripped_world))))"
  by (simp add: run_simps jina_only_env_def tripped_world_def plain_options_def content_options_def
        attempt_allowed_def)

text \<open>
  C2, amended. Every search that a call of \<open>route\<close> makes is of a registered
  provider. A search made from the stack loop is of a member of the chosen stack and is
  made only when, at that moment, the provider's circuit is not open and it has free quota
  left. A search made by the \<open>includeContent\<close> short-circuit is of \<^verbatim>\<open>jina_search\<close>, and
  one made as paid fallback is of the designated paid provider.
\<close>

theorem route_attempts:
  assumes run: "route e options w = (out, w')"
  shows "\<exists>new. calls w' = calls w @ new \<and>
     (\<forall>(i, c) \<in> set (enumerate (length (calls w)) new).
        inv_provider c \<in> set (providers e)
        \<and> (inv_site c = StackSite \<longrightarrow>
             \<not> includeContent options \<and> guarded e i c
             \<and> inv_provider c \<in> set (if preferGoogle options then googleStack else defaultStack))
        \<and> (inv_site c = ContentSite \<longrightarrow> includeContent options \<and> inv_provider c = ''jina_search'')
        \<and> (inv_site c = PaidSite \<longrightarrow>
             \<not> includeContent options
             \<and> inv_provider c = (if preferGoogle options then ''serper'' else ''jina_search''))
        \<and> inv_site c \<noteq> ExplicitSite)"
proof (cases "includeContent options")
  case True
  with run show ?thesis
    by (auto simp add: route_def search_def split: if_splits sum.splits)
next
  case False
  obtain r w1 where rs: "route_stack e (if preferGoogle options then googleStack else defaultStack) w = (r, w1)"
    by (cases "route_stack e (if preferGoogle options then googleStack else defaultStack) w")
  from route_stack_calls [OF rs] obtain new where new: "calls w1 = calls w @ new"
    "\<forall>(i, c) \<in> set (enumerate (length (calls w)) new).
        inv_site c = StackSite
        \<and> inv_provider c \<in> set (if preferGoogle options then googleStack else defaultStack)
        \<and> guarded e i c"
    by blast
  have ok: "\<forall>(i, c) \<in> set (enumerate (length (calls w)) new).
        inv_provider c \<in> set (providers e)
        \<and> (inv_site c = StackSite \<longrightarrow>
             \<not> includeContent options \<and> guarded e i c
             \<and> inv_provider c \<in> set (if preferGoogle options then googleStack else defaultStack))
        \<and> (inv_site c = ContentSite \<longrightarrow> includeContent options \<and> inv_provider c = ''jina_search'')
        \<and> (inv_site c = PaidSite \<longrightarrow>
             \<not> includeContent options
             \<and> inv_provider c = (if preferGoogle options then ''serper'' else ''jina_search''))
        \<and> inv_site c \<noteq> ExplicitSite"
    using new(2) False by (auto simp add: guarded_def)
  show ?thesis
  proof (cases "r = None \<and> (if preferGoogle options then ''serper'' else ''jina_search'') \<in> set (providers e)")
    case nocall: False
    with run False rs have "w' = w1"
      by (cases r) (auto simp add: route_def Let_def split: if_splits)
    with new(1) ok show ?thesis by blast
  next
    case paidcall: True
    define c0 where "c0 = \<lparr>inv_provider = (if preferGoogle options then ''serper'' else ''jina_search''),
        inv_site = PaidSite, inv_storage = storage w1, inv_circuit = circuitState w1\<rparr>"
    from run False rs paidcall have "calls w' = calls w1 @ [c0]"
      by (auto simp add: route_def Let_def search_def c0_def split: if_splits sum.splits)
    then have "calls w' = calls w @ (new @ [c0])"
      using new(1) by simp
    moreover have "\<forall>(i, c) \<in> set (enumerate (length (calls w)) (new @ [c0])).
        inv_provider c \<in> set (providers e)
        \<and> (inv_site c = StackSite \<longrightarrow>
             \<not> includeContent options \<and> guarded e i c
             \<and> inv_provider c \<in> set (if preferGoogle options then googleStack else defaultStack))
        \<and> (inv_site c = ContentSite \<longrightarrow> includeContent options \<and> inv_provider c = ''jina_search'')
        \<and> (inv_site c = PaidSite \<longrightarrow>
             \<not> includeContent options
             \<and> inv_provider c = (if preferGoogle options then ''serper'' else ''jina_search''))
        \<and> inv_site c \<noteq> ExplicitSite"
      using ok paidcall False by (auto simp add: enumerate_append_eq c0_def)
    ultimately show ?thesis by blast
  qed
qed

theorem route_attempts_witness:
  "calls (snd (route jina_down_env plain_options fresh_world)) =
     [\<lparr>inv_provider = ''jina_search'', inv_site = StackSite, inv_storage = Missing,
       inv_circuit = Map.empty\<rparr>,
      \<lparr>inv_provider = ''jina_search'', inv_site = PaidSite, inv_storage = Missing,
       inv_circuit = recordFailure Map.empty ''jina_search'' (epoch_ms feb_2026)\<rparr>]
   \<and> guarded jina_down_env 0
       \<lparr>inv_provider = ''jina_search'', inv_site = StackSite, inv_storage = Missing,
        inv_circuit = Map.empty\<rparr>"
proof -
  let ?c1 = "\<lparr>inv_provider = ''jina_search'', inv_site = StackSite, inv_storage = Missing,
       inv_circuit = Map.empty\<rparr>"
  let ?c2 = "\<lparr>inv_provider = ''jina_search'', inv_site = PaidSite, inv_storage = Missing,
       inv_circuit = recordFailure Map.empty ''jina_search'' (epoch_ms feb_2026)\<rparr>"
  have h: "calls (snd (route jina_down_env plain_options fresh_world)) = [?c1, ?c2]"
    by (simp add: run_simps jina_down_env_def fresh_world_def plain_options_def)
  have run: "route jina_down_env plain_options fresh_world =
      (fst (route jina_down_env plain_options fresh_world),
       snd (route jina_down_env plain_options fresh_world))"
    by simp
  from route_attempts [OF run] obtain new where
      new: "calls (snd (route jina_down_env plain_options fresh_world)) = calls fresh_world @ new"
      and ok: "\<forall>(i, c) \<in> set (enumerate (length (calls fresh_world)) new).
        inv_site c = StackSite \<longrightarrow> guarded jina_down_env i c"
    by fastforce
  from new h have "new = [?c1, ?c2]"
    by (simp add: fresh_world_def)
  with ok have "guarded jina_down_env 0 ?c1"
    by (simp add: fresh_world_def)
  with h show ?thesis by simp
qed

section \<open>Usage accounting\<close>

lemma get_increment:
  "get (snd (increment f k)) k' = get f k' + (if k' = k then 1 else 0)"
  by (simp add: get_def increment_def save_def load_def or_zero_def Let_def)

lemma get_recordUsage:
  "get (recordUsage tbl f p b t) k =
     get f k + (if k = getStorageKey tbl p t then 1 else 0) + (if b \<and> k = p @ '':paid'' then 1 else 0)"
  by (simp add: recordUsage_def Let_def get_increment)

lemma length_iso_month: "length (toISOString_slice_0_7 t) = 7"
  by (simp add: toISOString_slice_0_7_def length_pad)

lemma free_key_not_paid:
  "reset_type (PROVIDER_LIMITS tbl p) \<noteq> Paid \<Longrightarrow> getStorageKey tbl p t \<noteq> p @ '':paid''"
proof (cases "reset_type (PROVIDER_LIMITS tbl p)")
  case Monthly
  have "toISOString_slice_0_7 t \<noteq> ''paid''"
    using length_iso_month [of t] by auto
  with Monthly show ?thesis by (simp add: getStorageKey_def)
qed (simp_all add: getStorageKey_def)

lemma route_success:
  assumes run: "route e options w = (Inr r, w')"
  shows "storage w' = recordUsage (limits e) (storage w) (provider r) (usedPaidTier r)
                        (clock e (length (calls w')))
         \<and> calls w' \<noteq> [] \<and> inv_provider (last (calls w')) = provider r
         \<and> usedPaidTier r = (inv_site (last (calls w')) = PaidSite)"
proof (cases "includeContent options")
  case True
  with run show ?thesis
    by (auto simp add: route_def search_def read_clock_def split: if_splits sum.splits)
next
  case False
  obtain r0 w1 where rs: "route_stack e (if preferGoogle options then googleStack else defaultStack) w = (r0, w1)"
    by (cases "route_stack e (if preferGoogle options then googleStack else defaultStack) w")
  show ?thesis
  proof (cases r0)
    case (Some res)
    with run False rs have "r = res" "w' = w1"
      by (auto simp add: route_def Let_def)
    with route_stack_storage [OF rs] Some show ?thesis by simp
  next
    case None
    with route_stack_storage [OF rs] have "storage w1 = storage w" by simp
    with run False rs None show ?thesis
      by (auto simp add: route_def Let_def search_def read_clock_def split: if_splits sum.splits)
  qed
qed

text \<open>
  C7. After a successful call of \<open>route\<close> won by a provider that has a free tier
  (its reset type is not paid-only), the counter under that provider's storage key, derived
  at the instant of recording, has grown by exactly 1; the counter under the provider's
  \<open>:paid\<close> key, which is a different key, has grown by 1 if \<open>usedPaidTier\<close> is set
  and is unchanged otherwise; every other counter is unchanged. \<open>usedPaidTier\<close> is set
  exactly when the winning search was the paid fallback.
\<close>

theorem route_usage:
  assumes run: "route e options w = (Inr r, w')"
      and free: "reset_type (PROVIDER_LIMITS (limits e) (provider r)) \<noteq> Paid"
  shows "getStorageKey (limits e) (provider r) (clock e (length (calls w'))) \<noteq> provider r @ '':paid''
     \<and> get (storage w') (getStorageKey (limits e) (provider r) (clock e (length (calls w')))) =
         get (storage w) (getStorageKey (limits e) (provider r) (clock e (length (calls w')))) + 1
     \<and> get (storage w') (provider r @ '':paid'') =
         get (storage w) (provider r @ '':paid'') + (if usedPaidTier r then 1 else 0)
     \<and> (\<forall>k. k \<noteq> getStorageKey (limits e) (provider r) (clock e (length (calls w')))
             \<and> k \<noteq> provider r @ '':paid'' \<longrightarrow> get (storage w') k = get (storage w) k)
     \<and> usedPaidTier r = (inv_site (last (calls w')) = PaidSite)
     \<and> inv_provider (last (calls w')) = provider r"
  using route_success [OF run] free_key_not_paid [OF free, of "clock e (length (calls w'))"]
  by (auto simp add: get_recordUsage)

lemma example_month_key:
  "getStorageKey example_limits ''brave'' feb_2026 = ''brave:2026-02''"
  by (simp add: getStorageKey_def example_limits_def feb_2026_def toISOString_slice_0_7_def
        pad_numeral digit_def)

theorem route_usage_witness:
  "fst (route all_up_env plain_options fresh_world) =
     Inr \<lparr>results = [''https://modelcontextprotocol.io''], provider = ''brave'', usedPaidTier = False\<rparr>
   \<and> reset_type (PROVIDER_LIMITS (limits all_up_env) ''brave'') \<noteq> Paid
   \<and> get (storage fresh_world) ''brave:2026-02'' = 0
   \<and> get (storage (snd (route all_up_env plain_options fresh_world))) ''brave:2026-02'' = 1
   \<and> get (storage (snd (route all_up_env plain_options fresh_world))) ''brave:paid'' = 0
   \<and> get (storage (snd (route all_up_env plain_options fresh_world))) ''tavily:2026-02'' = 0
   \<and> fst (route jina_only_env plain_options exhausted_world) =
     Inr \<lparr>results = [''https://modelcontextprotocol.io''], provider = ''jina_search'',
          usedPaidTier = True\<rparr>
   \<and> get (storage (snd (route jina_only_env plain_options exhausted_world))) ''jina_search:lifetime'' = 1001
   \<and> get (storage (snd (route jina_only_env plain_options exhausted_world))) ''jina_search:paid'' = 1"
proof -
  let ?r = "\<lparr>results = [''https://modelcontextprotocol.io''], provider = ''brave'', usedPaidTier = False\<rparr>"
  let ?w = "snd (route all_up_env plain_options fresh_world)"
  have f: "fst (route all_up_env plain_options fresh_world) = Inr ?r"
    by (simp add: run_simps all_up_env_def fresh_world_def plain_options_def)
  then have run: "route all_up_env plain_options fresh_world = (Inr ?r, ?w)"
    by (metis prod.collapse)
  have free: "reset_type (PROVIDER_LIMITS (limits all_up_env) (provider ?r)) \<noteq> Paid"
    by (simp add: all_up_env_def example_limits_def)
  have k: "getStorageKey (limits all_up_env) (provider ?r) (clock all_up_env (length (calls ?w))) =
      ''brave:2026-02''"
    using example_month_key by (simp add: all_up_env_def)
  have z: "get (storage fresh_world) key = 0" for key
    by (simp add: fresh_world_def get_def load_def or_zero_def)
  from route_usage [OF run free]
  have won: "get (storage ?w) ''brave:2026-02'' = 1"
    and "get (storage ?w) ''brave:paid'' = 0"
    and "get (storage ?w) ''tavily:2026-02'' = 0"
    unfolding k by (simp_all add: z)
  let ?r' = "\<lparr>results = [''https://modelcontextprotocol.io''], provider = ''jina_search'',
          usedPaidTier = True\<rparr>"
  let ?w' = "snd (route jina_only_env plain_options exhausted_world)"
  have f': "fst (route jina_only_env plain_options exhausted_world) = Inr ?r'"
    by (simp add: run_simps jina_only_env_def exhausted_world_def plain_options_def)
  then have run': "route jina_only_env plain_options exhausted_world = (Inr ?r', ?w')"
    by (metis prod.collapse)
  have free': "reset_type (PROVIDER_LIMITS (limits jina_only_env) (provider ?r')) \<noteq> Paid"
    by (simp add: jina_only_env_def example_limits_def)
  have k': "getStorageKey (limits jina_only_env) (provider ?r') t = ''jina_search:lifetime''" for t
    by (simp add: getStorageKey_def jina_only_env_def example_limits_def)
  have z': "get (storage exhausted_world) ''jina_search:lifetime'' = 1000"
      "get (storage exhausted_world) ''jina_search:paid'' = 0"
    by (simp_all add: exhausted_world_def get_def load_def or_zero_def)
  from route_usage [OF run' free']
  have paid: "get (storage ?w') ''jina_search:lifetime'' = 1001"
    and "get (storage ?w') ''jina_search:paid'' = 1"
    unfolding k' by (simp_all add: z')
  with f free z won \<open>get (storage ?w) ''brave:paid'' = 0\<close>
    \<open>get (storage ?w) ''tavily:2026-02'' = 0\<close> f'
  show ?thesis by simp
qed

section \<open>Explicit provider selection\<close>







end
